theory Spec2Isabelle
  imports Main "HOL-Library.Sublist"
begin

section \<open>The stylesheet link extractor of ml-api/get_css.py\<close>

text \<open>
  The script fetches one page, parses it, walks the stylesheet link elements and
  returns their hrefs, made absolute by string concatenation. The network and the
  HTML parser are libraries outside the repository: the model takes the outcome of
  \<^verbatim>\<open>requests.get\<close> and of \<^verbatim>\<open>BeautifulSoup(..., 'html.parser')\<close> as
  parameters, each either raising or returning, and whether a \<^verbatim>\<open>print\<close> raises
  as a third; it embeds everything the script itself does with them.
\<close>

subsection \<open>Python values the script handles\<close>

text \<open>
  What a library call can raise. The handler of \<^verbatim>\<open>get_css_links\<close> is
  \<^verbatim>\<open>except Exception as e\<close>: it catches the instances of \<^verbatim>\<open>Exception\<close>
  (here with the text \<^verbatim>\<open>str(e)\<close>) and nothing else. \<^verbatim>\<open>KeyboardInterrupt\<close>
  derives from \<^verbatim>\<open>BaseException\<close> only; it is raised inside whatever call is
  running when the user interrupts the process, the blocking fetch included.
\<close>

datatype py_exception = Exception string | KeyboardInterrupt

text \<open>
  An element of the parsed document, with the attributes the script reads. With
  \<^verbatim>\<open>html.parser\<close>, bs4 stores \<^verbatim>\<open>rel\<close> of a link element as the list of its
  whitespace-separated tokens (a multi-valued attribute) and \<^verbatim>\<open>href\<close> as one
  string; \<^verbatim>\<open>None\<close> is an attribute the element does not have. The document is
  the list of its elements in document order, which is the order
  \<^verbatim>\<open>find_all\<close> visits them in.
\<close>

record tag =
  tag_name :: string
  attr_rel :: "string list option"
  attr_href :: "string option"

type_synonym headers = "(string \<times> string) list"


subsection \<open>String methods\<close>

text \<open>\<^verbatim>\<open>s.startswith(p)\<close>, \<^verbatim>\<open>s.lstrip(chars)\<close>, \<^verbatim>\<open>s.rstrip(chars)\<close>,
  \<^verbatim>\<open>sep.join(xs)\<close> and \<^verbatim>\<open>str(n)\<close> for a length.\<close>

definition startswith :: "string \<Rightarrow> string \<Rightarrow> bool" where
  "startswith s p = (take (length p) s = p)"

definition lstrip :: "string \<Rightarrow> string \<Rightarrow> string" where
  "lstrip s chars = dropWhile (\<lambda>c. c \<in> set chars) s"

definition rstrip :: "string \<Rightarrow> string \<Rightarrow> string" where
  "rstrip s chars = rev (dropWhile (\<lambda>c. c \<in> set chars) (rev s))"

fun join :: "string \<Rightarrow> string list \<Rightarrow> string" where
  "join sep [] = []"
| "join sep [x] = x"
| "join sep (x # y # ys) = x @ sep @ join sep (y # ys)"




subsection \<open>The search \<^verbatim>\<open>soup.find_all('link', rel='stylesheet')\<close>\<close>

text \<open>
  bs4 compares a multi-valued attribute with a string by trying each of its values,
  then the values joined by one space; an element without the attribute does not
  match a non-empty string. The element's name is compared as a string.
\<close>

definition matches :: "string list \<Rightarrow> string \<Rightarrow> bool" where
  "matches markup match_against =
     (list_ex (\<lambda>item. item = match_against) markup \<or> join '' '' markup = match_against)"

definition find_all :: "string \<Rightarrow> string \<Rightarrow> tag list \<Rightarrow> tag list" where
  "find_all name rel soup =
     filter (\<lambda>t. tag_name t = name \<and>
                 (case attr_rel t of None \<Rightarrow> False | Some markup \<Rightarrow> matches markup rel)) soup"

subsection \<open>Standard output\<close>

text \<open>
  Standard output is the text written so far. \<^verbatim>\<open>print(s)\<close> writes \<^verbatim>\<open>s\<close> and a
  line break, so one call writes as many lines as \<^verbatim>\<open>s\<close> has line breaks, plus one.
  A \<^verbatim>\<open>print\<close> can raise (a character the stream's encoding does not have, a
  closed pipe); whether it does is a parameter, a function of the text written so far
  and of the string printed, and a \<^verbatim>\<open>print\<close> that raises writes nothing.
\<close>

definition newline :: char where
  "newline = CHR 0x0A"

definition py_print ::
  "(string \<Rightarrow> string \<Rightarrow> py_exception option) \<Rightarrow> string \<Rightarrow> string \<Rightarrow> string \<times> py_exception option" where
  "py_print stdout_raises s out =
     (case stdout_raises out s of
        None \<Rightarrow> (out @ s @ [newline], None)
      | Some e \<Rightarrow> (out, Some e))"

subsection \<open>\<^verbatim>\<open>get_css_links\<close>\<close>

text \<open>Lines 17 to 21: the href as it is appended, for a href that passed \<^verbatim>\<open>if href:\<close>.\<close>

definition normalize_href :: "string \<Rightarrow> string \<Rightarrow> string" where
  "normalize_href url href =
     (if \<not> startswith href ''http'' then
        (if startswith href ''//'' then ''https:'' @ href
         else rstrip url ''/'' @ ''/'' @ lstrip href ''/'')
      else href)"

text \<open>The loop of lines 13 to 22 over the elements found, with \<^verbatim>\<open>css_links\<close> as
  the accumulator. \<^verbatim>\<open>if href:\<close> is false for \<^verbatim>\<open>None\<close> and for the empty string.\<close>

fun css_loop :: "string \<Rightarrow> tag list \<Rightarrow> string list \<Rightarrow> string list" where
  "css_loop url [] css_links = css_links"
| "css_loop url (link # rest) css_links =
     (case attr_href link of
        None \<Rightarrow> css_loop url rest css_links
      | Some href \<Rightarrow>
          if href \<noteq> [] then css_loop url rest (css_links @ [normalize_href url href])
          else css_loop url rest css_links)"

definition headers :: headers where
  "headers = [(''User-Agent'',
     ''Mozilla/5.0 (Windows NT 10.0; Win64; x64) AppleWebKit/537.36 (KHTML, like Gecko) Chrome/91.0.4472.124 Safari/537.36'')]"

text \<open>The body of the \<^verbatim>\<open>try\<close>: an exception of the fetch or of the parse ends it.\<close>

definition css_links_try ::
  "(string \<Rightarrow> headers \<Rightarrow> py_exception + string) \<Rightarrow> (string \<Rightarrow> py_exception + tag list) \<Rightarrow>
     string \<Rightarrow> py_exception + string list" where
  "css_links_try requests_get BeautifulSoup url =
     (case requests_get url headers of
        Inl e \<Rightarrow> Inl e
      | Inr content \<Rightarrow>
          (case BeautifulSoup content of
             Inl e \<Rightarrow> Inl e
           | Inr soup \<Rightarrow> Inr (css_loop url (find_all ''link'' ''stylesheet'' soup) [])))"

text \<open>
  The function, from the standard output \<open>out\<close> it finds: the standard output it
  leaves, and what it returns (\<open>Inr\<close>) or lets through (\<open>Inl\<close>). The \<^verbatim>\<open>print\<close> of
  line 25 runs in the handler, outside the \<^verbatim>\<open>try\<close>: what it raises leaves the
  function.
\<close>

definition get_css_links ::
  "(string \<Rightarrow> string \<Rightarrow> py_exception option) \<Rightarrow>
     (string \<Rightarrow> headers \<Rightarrow> py_exception + string) \<Rightarrow> (string \<Rightarrow> py_exception + tag list) \<Rightarrow>
     string \<Rightarrow> string \<Rightarrow> string \<times> (py_exception + string list)" where
  "get_css_links stdout_raises requests_get BeautifulSoup url out =
     (case css_links_try requests_get BeautifulSoup url of
        Inr css_links \<Rightarrow> (out, Inr css_links)
      | Inl (Exception e) \<Rightarrow>
          (case py_print stdout_raises (''Error: '' @ e) out of
             (out', None) \<Rightarrow> (out', Inr [])
           | (out', Some e') \<Rightarrow> (out', Inl e'))
      | Inl KeyboardInterrupt \<Rightarrow> (out, Inl KeyboardInterrupt))"

subsection \<open>The entry point\<close>




subsection \<open>The specification's wording\<close>

text \<open>
  The normalization rule as the specification words it: the page URL without its
  trailing slashes, one slash, the href without its leading slashes. These
  definitions follow the sentence, not the script; \<open>normalize_href_rule\<close> below
  compares them with \<open>normalize_href\<close>.
\<close>

fun strip_leading_slashes :: "string \<Rightarrow> string" where
  "strip_leading_slashes [] = []"
| "strip_leading_slashes (c # cs) = (if c = CHR ''/'' then strip_leading_slashes cs else c # cs)"

definition strip_trailing_slashes :: "string \<Rightarrow> string" where
  "strip_trailing_slashes s = foldr (\<lambda>c r. if c = CHR ''/'' \<and> r = [] then [] else c # r) s []"

definition normalize_rule :: "string \<Rightarrow> string \<Rightarrow> string" where
  "normalize_rule url href =
     (if prefix ''http'' href then href
      else if prefix ''//'' href then ''https:'' @ href
      else strip_trailing_slashes url @ ''/'' @ strip_leading_slashes href)"

text \<open>A string that begins with the URI scheme http or https, and a page URL that is
  an absolute HTTP(S) URL as far as its beginning tells.\<close>

definition has_scheme :: "string \<Rightarrow> bool" where
  "has_scheme s = (prefix ''http:'' s \<or> prefix ''https:'' s)"

definition is_http_url :: "string \<Rightarrow> bool" where
  "is_http_url url = (prefix ''http://'' url \<or> prefix ''https://'' url)"

text \<open>A link element whose rel attribute equals \<^verbatim>\<open>stylesheet\<close> (the
  specification's wording), and one whose rel attribute has \<^verbatim>\<open>stylesheet\<close> among
  its tokens.\<close>

definition rel_equals_stylesheet :: "tag \<Rightarrow> bool" where
  "rel_equals_stylesheet t = (tag_name t = ''link'' \<and> attr_rel t = Some [''stylesheet''])"

definition is_stylesheet_link :: "tag \<Rightarrow> bool" where
  "is_stylesheet_link t =
     (tag_name t = ''link'' \<and>
      (case attr_rel t of None \<Rightarrow> False | Some tokens \<Rightarrow> ''stylesheet'' \<in> set tokens))"

text \<open>
  The lines of a text: the stretches between its line breaks (a last stretch without
  a line break counts when it is not empty). \<open>printed\<close> is the text that printing
  the given strings in turn writes.
\<close>

fun lines_from :: "string \<Rightarrow> string \<Rightarrow> string list" where
  "lines_from line [] = (if line = [] then [] else [line])"
| "lines_from line (c # cs) =
     (if c = newline then line # lines_from [] cs else lines_from (line @ [c]) cs)"

definition stdout_lines :: "string \<Rightarrow> string list" where
  "stdout_lines out = lines_from [] out"

definition printed :: "string list \<Rightarrow> string" where
  "printed strings = concat (map (\<lambda>s. s @ [newline]) strings)"



text \<open>An element with a usable href: the attribute is there and is not empty.\<close>

definition usable_href :: "tag \<Rightarrow> bool" where
  "usable_href t = (case attr_href t of None \<Rightarrow> False | Some h \<Rightarrow> h \<noteq> [])"

subsection \<open>Example environments\<close>

text \<open>A server that answers every request with the same body, a server that has one
  page and answers \<^verbatim>\<open>Not Found\<close> for any other, a host that cannot be reached, a fetch the user interrupts, a parser that
  yields a given document, a parser that gives up, and a stylesheet link element with a
  given href.\<close>

text \<open>A standard output on which no \<^verbatim>\<open>print\<close> raises, and one encoded in ASCII, on
  which printing any other character raises \<^verbatim>\<open>UnicodeEncodeError\<close>.\<close>

definition stdout_ok :: "string \<Rightarrow> string \<Rightarrow> py_exception option" where
  "stdout_ok out s = None"

definition stdout_ascii :: "string \<Rightarrow> string \<Rightarrow> py_exception option" where
  "stdout_ascii out s =
     (if list_all (\<lambda>c. (of_char c :: nat) < 128) s then None
      else Some (Exception ''UnicodeEncodeError''))"

definition serve :: "string \<Rightarrow> string \<Rightarrow> headers \<Rightarrow> py_exception + string" where
  "serve body url hdrs = Inr body"

definition serve_page :: "string \<Rightarrow> string \<Rightarrow> string \<Rightarrow> headers \<Rightarrow> py_exception + string" where
  "serve_page page body url hdrs = (if url = page then Inr body else Inr ''Not Found'')"

definition unreachable :: "string \<Rightarrow> string \<Rightarrow> headers \<Rightarrow> py_exception + string" where
  "unreachable msg url hdrs = Inl (Exception msg)"

definition interrupted :: "string \<Rightarrow> headers \<Rightarrow> py_exception + string" where
  "interrupted url hdrs = Inl KeyboardInterrupt"

definition parsed_as :: "tag list \<Rightarrow> string \<Rightarrow> py_exception + tag list" where
  "parsed_as soup content = Inr soup"

definition rejecting :: "string \<Rightarrow> string \<Rightarrow> py_exception + tag list" where
  "rejecting msg content = Inl (Exception msg)"

definition stylesheet_link :: "string \<Rightarrow> tag" where
  "stylesheet_link h = \<lparr>tag_name = ''link'', attr_rel = Some [''stylesheet''], attr_href = Some h\<rparr>"

section \<open>Properties\<close>

subsection \<open>The string methods and the search\<close>

lemma startswith_prefix: "startswith s p = prefix p s"
  by (auto simp: startswith_def prefix_def min_def dest: sym) (metis append_eq_conv_conj)

lemma lstrip_slash: "lstrip s ''/'' = strip_leading_slashes s"
  by (induction s) (simp_all add: lstrip_def)

lemma foldr_snoc_slash:
  "foldr (\<lambda>c r. if c = CHR ''/'' \<and> r = [] then [] else c # r) (xs @ [x]) [] =
     (if x = CHR ''/'' then foldr (\<lambda>c r. if c = CHR ''/'' \<and> r = [] then [] else c # r) xs []
      else xs @ [x])"
  by (induction xs) auto

lemma rstrip_slash: "rstrip s ''/'' = strip_trailing_slashes s"
  by (induction s rule: rev_induct)
     (simp_all add: rstrip_def strip_trailing_slashes_def foldr_snoc_slash del: foldr_append)

lemma normalize_href_rule: "normalize_href url href = normalize_rule url href"
  by (simp add: normalize_href_def normalize_rule_def startswith_prefix lstrip_slash rstrip_slash)

lemma join_space: "CHR '' '' \<in> set (join '' '' (x # y # ys))"
  by simp

lemma matches_member:
  assumes "CHR '' '' \<notin> set v" "v \<noteq> []"
  shows "matches markup v = (v \<in> set markup)"
proof (cases markup)
  case Nil
  with assms show ?thesis by (auto simp: matches_def)
next
  case (Cons x xs)
  show ?thesis
  proof (cases xs)
    case Nil
    with Cons show ?thesis by (auto simp: matches_def)
  next
    case (Cons y ys)
    have "join '' '' markup \<noteq> v"
      using assms(1) join_space [of x y ys] \<open>markup = x # xs\<close> Cons by metis
    then show ?thesis by (auto simp: matches_def list_ex_iff)
  qed
qed

lemma matches_stylesheet: "matches markup ''stylesheet'' = (''stylesheet'' \<in> set markup)"
  by (rule matches_member) simp_all

lemma find_all_stylesheet: "find_all ''link'' ''stylesheet'' soup = filter is_stylesheet_link soup"
  unfolding find_all_def
  by (rule filter_cong) (simp_all add: is_stylesheet_link_def matches_stylesheet split: option.splits)

subsection \<open>The loop\<close>

lemma css_loop_map:
  "css_loop url links acc =
     acc @ map (normalize_href url) (filter (\<lambda>h. h \<noteq> []) (List.map_filter attr_href links))"
  by (induction links arbitrary: acc) (simp_all split: option.splits)

lemma find_all_Nil [simp]: "find_all name rel [] = []"
  by (simp add: find_all_def)

lemma stylesheet_link_found [simp]:
  "find_all ''link'' ''stylesheet'' (stylesheet_link h # soup) =
     stylesheet_link h # find_all ''link'' ''stylesheet'' soup"
  by (simp add: find_all_stylesheet is_stylesheet_link_def stylesheet_link_def)

lemma href_stylesheet_link [simp]: "attr_href (stylesheet_link h) = Some h"
  by (simp add: stylesheet_link_def)

subsection \<open>The outcomes of \<open>get_css_links\<close>\<close>

lemma css_links_try_ok:
  "requests_get url headers = Inr content \<Longrightarrow> BeautifulSoup content = Inr soup \<Longrightarrow>
     css_links_try requests_get BeautifulSoup url =
       Inr (css_loop url (find_all ''link'' ''stylesheet'' soup) [])"
  by (simp add: css_links_try_def)

lemma get_css_links_ok:
  "requests_get url headers = Inr content \<Longrightarrow> BeautifulSoup content = Inr soup \<Longrightarrow>
     get_css_links stdout_raises requests_get BeautifulSoup url out =
       (out, Inr (css_loop url (find_all ''link'' ''stylesheet'' soup) []))"
  by (simp add: get_css_links_def css_links_try_ok)

lemma css_links_try_raises:
  "requests_get url headers = Inl e \<or>
     (requests_get url headers = Inr content \<and> BeautifulSoup content = Inl e) \<Longrightarrow>
     css_links_try requests_get BeautifulSoup url = Inl e"
  by (auto simp: css_links_try_def)

lemma get_css_links_caught:
  "css_links_try requests_get BeautifulSoup url = Inl (Exception msg) \<Longrightarrow>
   stdout_raises out (''Error: '' @ msg) = None \<Longrightarrow>
     get_css_links stdout_raises requests_get BeautifulSoup url out =
       (out @ ''Error: '' @ msg @ [newline], Inr [])"
  by (simp add: get_css_links_def py_print_def)

lemma get_css_links_print_raises:
  "css_links_try requests_get BeautifulSoup url = Inl (Exception msg) \<Longrightarrow>
   stdout_raises out (''Error: '' @ msg) = Some e \<Longrightarrow>
     get_css_links stdout_raises requests_get BeautifulSoup url out = (out, Inl e)"
  by (simp add: get_css_links_def py_print_def)

lemma get_css_links_interrupted:
  "css_links_try requests_get BeautifulSoup url = Inl KeyboardInterrupt \<Longrightarrow>
     get_css_links stdout_raises requests_get BeautifulSoup url out = (out, Inl KeyboardInterrupt)"
  by (simp add: get_css_links_def)

subsection \<open>Lines of standard output\<close>

lemma printed_Nil [simp]: "printed [] = []"
  by (simp add: printed_def)

lemma printed_Cons [simp]: "printed (s # strings) = s @ newline # printed strings"
  by (simp add: printed_def)

lemma printed_append: "printed (xs @ ys) = printed xs @ printed ys"
  by (simp add: printed_def)

lemma lines_from_line:
  "newline \<notin> set s \<Longrightarrow> lines_from line (s @ newline # rest) = (line @ s) # lines_from [] rest"
  by (induction s arbitrary: line) auto

lemma length_lines_from:
  "length (lines_from line (s @ newline # rest)) =
     Suc (count_list s newline) + length (lines_from [] rest)"
  by (induction s arbitrary: line) auto

lemma stdout_lines_printed:
  "list_all (\<lambda>s. newline \<notin> set s) strings \<Longrightarrow> stdout_lines (printed strings) = strings"
  unfolding stdout_lines_def
  by (induction strings) (simp_all add: lines_from_line [where line = "[]", simplified])

lemma length_stdout_lines_printed:
  "length (stdout_lines (printed strings)) =
     length strings + sum_list (map (\<lambda>s. count_list s newline) strings)"
  unfolding stdout_lines_def
  by (induction strings) (simp_all add: length_lines_from)



subsection \<open>Normalization of the hrefs\<close>

text \<open>
  C1, as the script has it: when the page is fetched and parsed, the result is, in
  document order, the normalization of every non-empty href of a stylesheet link
  element; the normalization is the specification's rule (a href that begins with
  \<^verbatim>\<open>http\<close> unchanged; else \<^verbatim>\<open>https:\<close> before a href that begins with \<^verbatim>\<open>//\<close>;
  else the page URL without its trailing slashes, a slash, the href without its
  leading slashes). The claim says this of every href that is not missing; a href
  that is present and empty gets no entry, as the example after the theorem shows.
\<close>

theorem normalization_rule:
  assumes "requests_get url headers = Inr content" and "BeautifulSoup content = Inr soup"
  shows "get_css_links stdout_raises requests_get BeautifulSoup url out =
    (out, Inr (map (normalize_rule url)
               (filter (\<lambda>h. h \<noteq> [])
                  (List.map_filter attr_href (find_all ''link'' ''stylesheet'' soup)))))"
proof -
  have "normalize_href url = normalize_rule url"
    by (rule ext) (rule normalize_href_rule)
  with assms show ?thesis
    by (simp add: get_css_links_ok [of requests_get url content BeautifulSoup soup] css_loop_map)
qed

theorem normalization_rule_witness:
  "get_css_links stdout_ok (serve ''<html>'')
     (parsed_as [stylesheet_link ''https://fonts.example.org/f.css'',
                 stylesheet_link ''//cdn.example.com/a.css'',
                 stylesheet_link ''/css/site.css''])
     ''https://example.com//'' [] =
   ([], Inr [''https://fonts.example.org/f.css'', ''https://cdn.example.com/a.css'',
             ''https://example.com/css/site.css''])"
proof -
  have "get_css_links stdout_ok (serve ''<html>'')
     (parsed_as [stylesheet_link ''https://fonts.example.org/f.css'',
                 stylesheet_link ''//cdn.example.com/a.css'',
                 stylesheet_link ''/css/site.css''])
     ''https://example.com//'' [] =
    ([], Inr (map (normalize_rule ''https://example.com//'')
               (filter (\<lambda>h. h \<noteq> [])
                  (List.map_filter attr_href (find_all ''link'' ''stylesheet''
                     [stylesheet_link ''https://fonts.example.org/f.css'',
                      stylesheet_link ''//cdn.example.com/a.css'',
                      stylesheet_link ''/css/site.css''])))))"
    by (rule normalization_rule [where content = "''<html>''"])
       (simp_all add: serve_def parsed_as_def)
  then show ?thesis
    by (simp add: normalize_rule_def strip_trailing_slashes_def)
qed

text \<open>The claim as written, at a stylesheet link whose href is the empty string: the
  rule would give the page URL and a slash, the script returns nothing.\<close>

theorem normalization_rule_counterexample:
  "get_css_links stdout_ok (serve ''<html>'') (parsed_as [stylesheet_link ''''])
      ''https://example.com'' [] = ([], Inr []) \<and>
   map (normalize_rule ''https://example.com'')
     (List.map_filter attr_href (find_all ''link'' ''stylesheet'' [stylesheet_link ''''])) =
     [''https://example.com/'']"
  by (simp add: get_css_links_def css_links_try_def serve_def parsed_as_def
        normalize_rule_def strip_trailing_slashes_def)

subsection \<open>Exceptions\<close>

text \<open>
  C2, as the script has it. When the fetch or the parse raises an instance of
  \<^verbatim>\<open>Exception\<close>, the handler prints \<^verbatim>\<open>Error:\<close> and the message; if that
  \<^verbatim>\<open>print\<close> raises nothing, the text and a line break are written (one line when
  the message has no line break, one more for each line break in it) and the empty
  list is returned. The \<^verbatim>\<open>print\<close> stands in the handler, outside the \<^verbatim>\<open>try\<close>:
  when it raises, nothing is written and its exception leaves the function. When the
  fetch or the parse raises \<^verbatim>\<open>KeyboardInterrupt\<close>, which the handler does not name,
  nothing is printed and the exception leaves the function. So the claim's "no
  exception ever propagates" and its "a diagnostic line" both fail. The loop itself
  raises nothing.
\<close>

theorem exceptions_caught:
  "((requests_get url headers = Inl (Exception msg) \<or>
       (requests_get url headers = Inr content \<and> BeautifulSoup content = Inl (Exception msg))) \<and>
      stdout_raises out (''Error: '' @ msg) = None \<longrightarrow>
      get_css_links stdout_raises requests_get BeautifulSoup url out =
        (out @ printed [''Error: '' @ msg], Inr []) \<and>
      length (stdout_lines (printed [''Error: '' @ msg])) = Suc (count_list msg newline) \<and>
      (newline \<notin> set msg \<longrightarrow> stdout_lines (printed [''Error: '' @ msg]) = [''Error: '' @ msg])) \<and>
   ((requests_get url headers = Inl (Exception msg) \<or>
       (requests_get url headers = Inr content \<and> BeautifulSoup content = Inl (Exception msg))) \<and>
      stdout_raises out (''Error: '' @ msg) = Some e \<longrightarrow>
      get_css_links stdout_raises requests_get BeautifulSoup url out = (out, Inl e)) \<and>
   (requests_get url headers = Inl KeyboardInterrupt \<or>
      (requests_get url headers = Inr content \<and> BeautifulSoup content = Inl KeyboardInterrupt) \<longrightarrow>
      get_css_links stdout_raises requests_get BeautifulSoup url out =
        (out, Inl KeyboardInterrupt))"
proof (intro conjI impI)
  assume a: "(requests_get url headers = Inl (Exception msg) \<or>
       (requests_get url headers = Inr content \<and> BeautifulSoup content = Inl (Exception msg))) \<and>
      stdout_raises out (''Error: '' @ msg) = None"
  then have "css_links_try requests_get BeautifulSoup url = Inl (Exception msg)"
    by (auto simp: css_links_try_def)
  with a show "get_css_links stdout_raises requests_get BeautifulSoup url out =
        (out @ printed [''Error: '' @ msg], Inr [])"
    by (simp add: get_css_links_caught)
next
  show "length (stdout_lines (printed [''Error: '' @ msg])) = Suc (count_list msg newline)"
    by (subst length_stdout_lines_printed) (simp add: newline_def)
next
  assume "newline \<notin> set msg"
  then show "stdout_lines (printed [''Error: '' @ msg]) = [''Error: '' @ msg]"
    by (intro stdout_lines_printed) (simp add: newline_def)
next
  assume a: "(requests_get url headers = Inl (Exception msg) \<or>
       (requests_get url headers = Inr content \<and> BeautifulSoup content = Inl (Exception msg))) \<and>
      stdout_raises out (''Error: '' @ msg) = Some e"
  then have "css_links_try requests_get BeautifulSoup url = Inl (Exception msg)"
    by (auto simp: css_links_try_def)
  with a show "get_css_links stdout_raises requests_get BeautifulSoup url out = (out, Inl e)"
    by (simp add: get_css_links_print_raises)
next
  assume "requests_get url headers = Inl KeyboardInterrupt \<or>
      (requests_get url headers = Inr content \<and> BeautifulSoup content = Inl KeyboardInterrupt)"
  then have "css_links_try requests_get BeautifulSoup url = Inl KeyboardInterrupt"
    by (rule css_links_try_raises)
  then show "get_css_links stdout_raises requests_get BeautifulSoup url out =
        (out, Inl KeyboardInterrupt)"
    by (rule get_css_links_interrupted)
qed

theorem exceptions_caught_witness:
  "get_css_links stdout_ok (unreachable ''Name or service not known'') (parsed_as [])
      ''https://example.com/'' [] = (printed [''Error: Name or service not known''], Inr []) \<and>
   stdout_lines (printed [''Error: Name or service not known'']) =
      [''Error: Name or service not known''] \<and>
   get_css_links stdout_ok (serve ''<html>'') (rejecting ''maximum recursion depth exceeded'')
      ''https://example.com/'' [] =
      (printed [''Error: maximum recursion depth exceeded''], Inr []) \<and>
   get_css_links stdout_ascii (unreachable (''caf'' @ [CHR 0xE9])) (parsed_as [])
      ''https://example.com/'' [] = ([], Inl (Exception ''UnicodeEncodeError'')) \<and>
   get_css_links stdout_ok interrupted (parsed_as []) ''https://example.com/'' [] =
      ([], Inl KeyboardInterrupt)"
proof -
  note caught = exceptions_caught [THEN conjunct1, rule_format]
  note escapes = exceptions_caught [THEN conjunct2, THEN conjunct1, rule_format]
  note interrupt = exceptions_caught [THEN conjunct2, THEN conjunct2, rule_format]
  have 1: "get_css_links stdout_ok (unreachable ''Name or service not known'') (parsed_as [])
      ''https://example.com/'' [] = ([] @ printed [''Error: '' @ ''Name or service not known''], Inr []) \<and>
      length (stdout_lines (printed [''Error: '' @ ''Name or service not known''])) =
        Suc (count_list ''Name or service not known'' newline) \<and>
      (newline \<notin> set ''Name or service not known'' \<longrightarrow>
        stdout_lines (printed [''Error: '' @ ''Name or service not known'']) =
          [''Error: '' @ ''Name or service not known''])"
    by (rule caught [where content = "[]"]) (simp add: unreachable_def stdout_ok_def)
  have 2: "get_css_links stdout_ok (serve ''<html>'') (rejecting ''maximum recursion depth exceeded'')
      ''https://example.com/'' [] =
      ([] @ printed [''Error: '' @ ''maximum recursion depth exceeded''], Inr []) \<and>
      length (stdout_lines (printed [''Error: '' @ ''maximum recursion depth exceeded''])) =
        Suc (count_list ''maximum recursion depth exceeded'' newline) \<and>
      (newline \<notin> set ''maximum recursion depth exceeded'' \<longrightarrow>
        stdout_lines (printed [''Error: '' @ ''maximum recursion depth exceeded'']) =
          [''Error: '' @ ''maximum recursion depth exceeded''])"
    by (rule caught [where content = "''<html>''"]) (simp add: serve_def rejecting_def stdout_ok_def)
  have 3: "get_css_links stdout_ascii (unreachable (''caf'' @ [CHR 0xE9])) (parsed_as [])
      ''https://example.com/'' [] = ([], Inl (Exception ''UnicodeEncodeError''))"
    by (rule escapes [where content = "[]" and msg = "''caf'' @ [CHR 0xE9]"])
       (simp add: unreachable_def stdout_ascii_def)
  have 4: "get_css_links stdout_ok interrupted (parsed_as []) ''https://example.com/'' [] =
      ([], Inl KeyboardInterrupt)"
    by (rule interrupt [where content = "[]"]) (simp add: interrupted_def)
  from 1 2 3 4 show ?thesis
    by (simp add: newline_def)
qed

text \<open>The claim as written, at three inputs: the user interrupts the fetch, and the
  exception leaves the function; the message has a character that an ASCII standard
  output cannot encode, and the handler's \<^verbatim>\<open>print\<close> raises an exception that
  leaves the function; the parser's message has a line break, and the diagnostic is two
  lines.\<close>

theorem exceptions_caught_counterexample:
  "get_css_links stdout_ok interrupted (parsed_as []) ''https://example.com/'' [] =
     ([], Inl KeyboardInterrupt) \<and>
   get_css_links stdout_ascii (unreachable (''caf'' @ [CHR 0xE9])) (parsed_as [])
     ''https://example.com/'' [] = ([], Inl (Exception ''UnicodeEncodeError'')) \<and>
   stdout_lines (fst (get_css_links stdout_ok (serve ''<html>'')
       (rejecting (''no parser found'' @ [newline] @ ''install one''))
       ''https://example.com/'' [])) = [''Error: no parser found'', ''install one'']"
  by (simp add: get_css_links_def css_links_try_def py_print_def interrupted_def unreachable_def
        serve_def rejecting_def stdout_ok_def stdout_ascii_def stdout_lines_def newline_def)


subsection \<open>Schemes and membership\<close>

lemma startswith_http_unchanged:
  "startswith r ''http'' \<Longrightarrow> normalize_href url r = r"
  by (simp add: normalize_href_def)

lemma prefix_http_scheme: "has_scheme r \<Longrightarrow> startswith r ''http''"
  by (auto simp: has_scheme_def startswith_prefix prefix_def)

lemma rstrip_keeps_scheme:
  assumes "is_http_url url"
  shows "has_scheme (rstrip url ''/'' @ rest)"
proof -
  have keep: "rstrip (p @ CHR '':'' # s) ''/'' = p @ CHR '':'' # rstrip s ''/''" for p s
    by (induction s rule: rev_induct) (simp_all add: rstrip_def)
  from assms consider s where "url = ''http'' @ CHR '':'' # ''//'' @ s"
    | s where "url = ''https'' @ CHR '':'' # ''//'' @ s"
    by (auto simp: is_http_url_def prefix_def)
  then show ?thesis
  proof cases
    case 1
    then show ?thesis
      unfolding 1 keep by (simp add: has_scheme_def)
  next
    case 2
    then show ?thesis
      unfolding 2 keep by (simp add: has_scheme_def)
  qed
qed

lemma normalize_href_cases:
  assumes "is_http_url url"
  shows "has_scheme (normalize_href url href) \<or>
         (startswith href ''http'' \<and> normalize_href url href = href)"
  using rstrip_keeps_scheme [OF assms]
  by (simp add: normalize_href_def has_scheme_def)

lemma in_set_map_filter:
  "y \<in> set (List.map_filter f xs) \<longleftrightarrow> (\<exists>x \<in> set xs. f x = Some y)"
  by (induction xs) (auto split: option.splits)

lemma in_set_css_loop:
  "r \<in> set (css_loop url links []) \<Longrightarrow>
     \<exists>h \<in> set (List.map_filter attr_href links). h \<noteq> [] \<and> r = normalize_href url h"
  by (auto simp: css_loop_map)

lemma href_of_found:
  "h \<in> set (List.map_filter attr_href (find_all name rel soup)) \<Longrightarrow>
     h \<in> set (List.map_filter attr_href soup)"
  by (auto simp: in_set_map_filter find_all_def)

subsection \<open>What the result begins with\<close>

text \<open>
  C3, as the script has it: for a page URL that begins with \<^verbatim>\<open>http://\<close> or
  \<^verbatim>\<open>https://\<close> and a page that is fetched and parsed, every string of the
  result begins with the four characters \<^verbatim>\<open>http\<close>; and it begins with the scheme
  \<^verbatim>\<open>http:\<close> or \<^verbatim>\<open>https:\<close> unless it is a href of the document, returned as it
  stands. The script's test is \<^verbatim>\<open>href.startswith('http')\<close>, so a relative href
  such as \<^verbatim>\<open>httpx.css\<close> is returned unchanged and the claim that every entry
  begins with a scheme fails there.
\<close>

theorem results_begin_with_http:
  assumes "is_http_url url"
    and "requests_get url headers = Inr content" and "BeautifulSoup content = Inr soup"
    and "snd (get_css_links stdout_raises requests_get BeautifulSoup url out) = Inr links"
    and "r \<in> set links"
  shows "startswith r ''http'' \<and> (has_scheme r \<or> r \<in> set (List.map_filter attr_href soup))"
proof -
  have "links = css_loop url (find_all ''link'' ''stylesheet'' soup) []"
    using assms(2-4) by (simp add: get_css_links_ok [of requests_get url content BeautifulSoup soup])
  with assms(5) obtain h where h: "r = normalize_href url h"
      "h \<in> set (List.map_filter attr_href (find_all ''link'' ''stylesheet'' soup))"
    using in_set_css_loop [of r url "find_all ''link'' ''stylesheet'' soup"] by auto
  from h(2) have "h \<in> set (List.map_filter attr_href soup)"
    by (rule href_of_found)
  with normalize_href_cases [OF assms(1), of h] h(1) prefix_http_scheme [of r]
  show ?thesis by auto
qed

theorem results_begin_with_http_witness:
  "is_http_url ''https://example.com/'' \<and>
   snd (get_css_links stdout_ok (serve ''<html>'')
     (parsed_as [stylesheet_link ''css/site.css'', stylesheet_link ''httpx.css''])
     ''https://example.com/'' []) = Inr [''https://example.com/css/site.css'', ''httpx.css''] \<and>
   startswith ''https://example.com/css/site.css'' ''http'' \<and> has_scheme ''https://example.com/css/site.css'' \<and>
   startswith ''httpx.css'' ''http'' \<and>
   ''httpx.css'' \<in> set (List.map_filter attr_href
       [stylesheet_link ''css/site.css'', stylesheet_link ''httpx.css''])"
proof -
  have u: "is_http_url ''https://example.com/''"
    by (simp add: is_http_url_def)
  have g: "snd (get_css_links stdout_ok (serve ''<html>'')
     (parsed_as [stylesheet_link ''css/site.css'', stylesheet_link ''httpx.css''])
     ''https://example.com/'' []) = Inr [''https://example.com/css/site.css'', ''httpx.css'']"
    by (simp add: get_css_links_def css_links_try_def serve_def parsed_as_def
          normalize_href_def startswith_def rstrip_def lstrip_def)
  have "startswith ''https://example.com/css/site.css'' ''http'' \<and>
     (has_scheme ''https://example.com/css/site.css'' \<or> ''https://example.com/css/site.css'' \<in> set (List.map_filter attr_href
       [stylesheet_link ''css/site.css'', stylesheet_link ''httpx.css'']))"
    by (rule results_begin_with_http [OF u _ _ g, where content = "''<html>''"])
       (simp_all add: serve_def parsed_as_def)
  moreover have "startswith ''httpx.css'' ''http'' \<and>
     (has_scheme ''httpx.css'' \<or> ''httpx.css'' \<in> set (List.map_filter attr_href
       [stylesheet_link ''css/site.css'', stylesheet_link ''httpx.css'']))"
    by (rule results_begin_with_http [OF u _ _ g, where content = "''<html>''"])
       (simp_all add: serve_def parsed_as_def)
  ultimately show ?thesis
    using u g by (simp add: has_scheme_def)
qed

text \<open>The claim as written, at a stylesheet link whose href is the relative path
  \<^verbatim>\<open>httpx.css\<close>: the entry has no scheme.\<close>

theorem results_begin_with_http_counterexample:
  "is_http_url ''https://example.com'' \<and>
   get_css_links stdout_ok (serve ''<html>'')
     (parsed_as [stylesheet_link ''httpx.css'']) ''https://example.com'' [] =
     ([], Inr [''httpx.css'']) \<and>
   \<not> has_scheme ''httpx.css''"
  by (simp add: is_http_url_def has_scheme_def get_css_links_def css_links_try_def
        serve_def parsed_as_def normalize_href_def startswith_def)

subsection \<open>Which elements are collected\<close>

text \<open>
  C4, as the script has it: when the page is fetched and parsed, the result is made,
  in document order, from exactly the elements named \<^verbatim>\<open>link\<close> whose rel attribute
  has \<^verbatim>\<open>stylesheet\<close> among its whitespace-separated tokens; every other element
  contributes nothing. The claim says "equals": a link element with
  \<^verbatim>\<open>rel="alternate stylesheet"\<close> has a rel attribute that is not equal to
  \<^verbatim>\<open>stylesheet\<close>, and is collected.
\<close>

theorem collects_stylesheet_links:
  assumes "requests_get url headers = Inr content" and "BeautifulSoup content = Inr soup"
  shows "get_css_links stdout_raises requests_get BeautifulSoup url out =
    (out, Inr (map (normalize_href url)
               (filter (\<lambda>h. h \<noteq> [])
                  (List.map_filter attr_href (filter is_stylesheet_link soup)))))"
  using assms
  by (simp add: get_css_links_ok [of requests_get url content BeautifulSoup soup]
        css_loop_map find_all_stylesheet)

theorem collects_stylesheet_links_witness:
  "get_css_links stdout_ok (serve ''<html>'')
     (parsed_as
        [\<lparr>tag_name = ''link'', attr_rel = Some [''icon''], attr_href = Some ''https://example.com/i.png''\<rparr>,
         stylesheet_link ''https://example.com/a.css'',
         \<lparr>tag_name = ''a'', attr_rel = Some [''stylesheet''], attr_href = Some ''https://example.com/b.css''\<rparr>,
         \<lparr>tag_name = ''link'', attr_rel = None, attr_href = Some ''https://example.com/c.css''\<rparr>,
         \<lparr>tag_name = ''link'', attr_rel = Some [''preload'', ''stylesheet''], attr_href = Some ''https://example.com/d.css''\<rparr>])
     ''https://example.com/'' [] =
   ([], Inr [''https://example.com/a.css'', ''https://example.com/d.css''])"
proof -
  let ?soup = "[\<lparr>tag_name = ''link'', attr_rel = Some [''icon''], attr_href = Some ''https://example.com/i.png''\<rparr>,
         stylesheet_link ''https://example.com/a.css'',
         \<lparr>tag_name = ''a'', attr_rel = Some [''stylesheet''], attr_href = Some ''https://example.com/b.css''\<rparr>,
         \<lparr>tag_name = ''link'', attr_rel = None, attr_href = Some ''https://example.com/c.css''\<rparr>,
         \<lparr>tag_name = ''link'', attr_rel = Some [''preload'', ''stylesheet''], attr_href = Some ''https://example.com/d.css''\<rparr>]"
  have "get_css_links stdout_ok (serve ''<html>'') (parsed_as ?soup) ''https://example.com/'' [] =
    ([], Inr (map (normalize_href ''https://example.com/'')
               (filter (\<lambda>h. h \<noteq> [])
                  (List.map_filter attr_href (filter is_stylesheet_link ?soup)))))"
    by (rule collects_stylesheet_links [where content = "''<html>''"])
       (simp_all add: serve_def parsed_as_def)
  then show ?thesis
    by (simp add: is_stylesheet_link_def stylesheet_link_def normalize_href_def startswith_def)
qed

text \<open>The claim as written, at a link element whose rel attribute is
  \<^verbatim>\<open>alternate stylesheet\<close>: it is not equal to \<^verbatim>\<open>stylesheet\<close> and its href is
  in the result.\<close>

theorem collects_stylesheet_links_counterexample:
  "\<not> rel_equals_stylesheet
      \<lparr>tag_name = ''link'', attr_rel = Some [''alternate'', ''stylesheet''],
       attr_href = Some ''https://example.com/print.css''\<rparr> \<and>
   get_css_links stdout_ok (serve ''<html>'')
     (parsed_as [\<lparr>tag_name = ''link'', attr_rel = Some [''alternate'', ''stylesheet''],
                  attr_href = Some ''https://example.com/print.css''\<rparr>])
     ''https://example.com/'' [] = ([], Inr [''https://example.com/print.css''])"
  by (simp add: rel_equals_stylesheet_def get_css_links_def css_links_try_def serve_def
        parsed_as_def find_all_stylesheet is_stylesheet_link_def normalize_href_def startswith_def)

subsection \<open>Three examples of the normalization\<close>

text \<open>
  C5: a stylesheet link with href \<^verbatim>\<open>//cdn.example.com/a.css\<close> gives the entry
  \<^verbatim>\<open>https://cdn.example.com/a.css\<close> (whatever the page URL); href
  \<^verbatim>\<open>style.css\<close> on the page \<^verbatim>\<open>https://example.com/\<close> gives
  \<^verbatim>\<open>https://example.com/style.css\<close>; and href \<^verbatim>\<open>/style.css\<close> on the page
  \<^verbatim>\<open>https://example.com\<close> gives \<^verbatim>\<open>https://example.com/style.css\<close>.
\<close>

theorem normalization_examples:
  "get_css_links stdout_raises (serve body) (parsed_as [stylesheet_link ''//cdn.example.com/a.css'']) url out =
     (out, Inr [''https://cdn.example.com/a.css'']) \<and>
   get_css_links stdout_raises (serve body) (parsed_as [stylesheet_link ''style.css'']) ''https://example.com/'' out =
     (out, Inr [''https://example.com/style.css'']) \<and>
   get_css_links stdout_raises (serve body) (parsed_as [stylesheet_link ''/style.css'']) ''https://example.com'' out =
     (out, Inr [''https://example.com/style.css''])"
  by (simp add: get_css_links_def css_links_try_def serve_def parsed_as_def
        normalize_href_def startswith_def rstrip_def lstrip_def)

subsection \<open>Absolute hrefs\<close>

lemma css_loop_absolute:
  "list_all (\<lambda>h. startswith h ''http'') hrefs \<Longrightarrow> map attr_href links = map Some hrefs \<Longrightarrow>
     css_loop url links acc = acc @ hrefs"
proof (induction links arbitrary: hrefs acc)
  case Nil
  then show ?case by simp
next
  case (Cons link links)
  then obtain h hs where hrefs: "hrefs = h # hs" "attr_href link = Some h"
      "map attr_href links = map Some hs"
    by (cases hrefs) auto
  with Cons.prems have h: "startswith h ''http''" "list_all (\<lambda>h. startswith h ''http'') hs"
    by simp_all
  from h(1) have "h \<noteq> []"
    by (auto simp: startswith_def)
  with Cons.IH [OF h(2) hrefs(3)] hrefs h(1) show ?case
    by (simp add: startswith_http_unchanged)
qed

text \<open>
  C6: when every stylesheet link element of the document carries a href that begins
  with \<^verbatim>\<open>http\<close>, the result is the list of those hrefs, unchanged, in document
  order, duplicates kept: as long as the list of the stylesheet link elements.
\<close>

theorem absolute_hrefs_unchanged:
  assumes "requests_get url headers = Inr content" and "BeautifulSoup content = Inr soup"
    and "map attr_href (find_all ''link'' ''stylesheet'' soup) = map Some hrefs"
    and "list_all (\<lambda>h. startswith h ''http'') hrefs"
  shows "get_css_links stdout_raises requests_get BeautifulSoup url out = (out, Inr hrefs) \<and>
         length hrefs = length (find_all ''link'' ''stylesheet'' soup)"
proof
  show "get_css_links stdout_raises requests_get BeautifulSoup url out = (out, Inr hrefs)"
    using assms(1,2) css_loop_absolute [OF assms(4,3), of url "[]"]
    by (simp add: get_css_links_ok [of requests_get url content BeautifulSoup soup])
  show "length hrefs = length (find_all ''link'' ''stylesheet'' soup)"
    using arg_cong [OF assms(3), of length] by simp
qed

theorem absolute_hrefs_unchanged_witness:
  "get_css_links stdout_ok (serve ''<html>'')
     (parsed_as [stylesheet_link ''https://example.com/a.css'',
                 \<lparr>tag_name = ''script'', attr_rel = None, attr_href = None\<rparr>,
                 stylesheet_link ''http://cdn.example.com/b.css'',
                 stylesheet_link ''https://example.com/a.css''])
     ''https://example.com/'' [] =
     ([], Inr [''https://example.com/a.css'', ''http://cdn.example.com/b.css'',
               ''https://example.com/a.css'']) \<and>
   length (find_all ''link'' ''stylesheet''
       [stylesheet_link ''https://example.com/a.css'',
        \<lparr>tag_name = ''script'', attr_rel = None, attr_href = None\<rparr>,
        stylesheet_link ''http://cdn.example.com/b.css'',
        stylesheet_link ''https://example.com/a.css'']) = 3"
proof -
  let ?soup = "[stylesheet_link ''https://example.com/a.css'',
        \<lparr>tag_name = ''script'', attr_rel = None, attr_href = None\<rparr>,
        stylesheet_link ''http://cdn.example.com/b.css'',
        stylesheet_link ''https://example.com/a.css'']"
  let ?hrefs = "[''https://example.com/a.css'', ''http://cdn.example.com/b.css'',
               ''https://example.com/a.css'']"
  have "get_css_links stdout_ok (serve ''<html>'') (parsed_as ?soup) ''https://example.com/'' [] = ([], Inr ?hrefs) \<and>
         length ?hrefs = length (find_all ''link'' ''stylesheet'' ?soup)"
    by (rule absolute_hrefs_unchanged [where content = "''<html>''"])
       (simp_all add: serve_def parsed_as_def startswith_def find_all_stylesheet
          is_stylesheet_link_def stylesheet_link_def)
  then show ?thesis
    by (simp add: find_all_stylesheet is_stylesheet_link_def stylesheet_link_def)
qed

subsection \<open>Decimal numerals\<close>





subsection \<open>Elements without a usable href\<close>

lemma css_loop_count:
  "length (css_loop url links []) = length (filter usable_href links)"
  by (induction links) (simp_all add: css_loop_map usable_href_def split: option.splits)

lemma css_loop_skip:
  assumes "\<not> usable_href link"
  shows "css_loop url (find_all name rel (pre @ link # post)) acc =
         css_loop url (find_all name rel (pre @ post)) acc"
  using assms
  by (simp add: css_loop_map find_all_def List.map_filter_def usable_href_def split: option.splits)

lemma get_css_links_skip:
  assumes "requests_get url headers = Inr content"
    and "BeautifulSoup content = Inr (pre @ link # post)"
    and "\<not> usable_href link"
  shows "get_css_links stdout_raises requests_get BeautifulSoup url out =
           (out, Inr (css_loop url (find_all ''link'' ''stylesheet'' (pre @ post)) []))"
  using assms(1,2) css_loop_skip [OF assms(3)]
  by (simp add: get_css_links_ok [of requests_get url content BeautifulSoup "pre @ link # post"])

text \<open>
  C7: an element without a href attribute is skipped silently. The function
  returns what it returns for the document without that element, prints nothing
  (the standard output is as the function found it), and
  the length of the result is the number of stylesheet link elements with a usable
  href.
\<close>

theorem missing_href_skipped:
  assumes "requests_get url headers = Inr content"
    and "BeautifulSoup content = Inr (pre @ link # post)"
    and "attr_href link = None"
  shows "get_css_links stdout_raises requests_get BeautifulSoup url out =
           get_css_links stdout_raises requests_get (parsed_as (pre @ post)) url out \<and>
         fst (get_css_links stdout_raises requests_get BeautifulSoup url out) = out \<and>
         (\<exists>links. snd (get_css_links stdout_raises requests_get BeautifulSoup url out) = Inr links \<and>
            length links =
              length (filter usable_href (find_all ''link'' ''stylesheet'' (pre @ link # post))))"
proof -
  from assms(3) have skip: "\<not> usable_href link"
    by (simp add: usable_href_def)
  have without: "get_css_links stdout_raises requests_get (parsed_as (pre @ post)) url out =
      (out, Inr (css_loop url (find_all ''link'' ''stylesheet'' (pre @ post)) []))"
    using assms(1) by (simp add: get_css_links_ok [of requests_get url content _ "pre @ post"] parsed_as_def)
  have whole: "get_css_links stdout_raises requests_get BeautifulSoup url out =
      (out, Inr (css_loop url (find_all ''link'' ''stylesheet'' (pre @ link # post)) []))"
    using assms(1,2) by (rule get_css_links_ok)
  have same: "get_css_links stdout_raises requests_get BeautifulSoup url out =
      get_css_links stdout_raises requests_get (parsed_as (pre @ post)) url out"
    using get_css_links_skip [of requests_get url content BeautifulSoup pre link post]
      assms(1,2) skip without by simp
  have count: "\<exists>links. snd (get_css_links stdout_raises requests_get BeautifulSoup url out) = Inr links \<and>
      length links =
        length (filter usable_href (find_all ''link'' ''stylesheet'' (pre @ link # post)))"
    by (simp add: whole css_loop_count)
  have quiet: "fst (get_css_links stdout_raises requests_get BeautifulSoup url out) = out"
    by (simp add: whole)
  from same quiet count show ?thesis
    by (intro conjI)
qed

theorem missing_href_skipped_witness:
  "get_css_links stdout_ok (serve ''<html>'')
     (parsed_as ([stylesheet_link ''https://example.com/a.css''] @
        \<lparr>tag_name = ''link'', attr_rel = Some [''stylesheet''], attr_href = None\<rparr> #
        [stylesheet_link ''https://example.com/b.css''])) ''https://example.com/'' [] =
   ([], Inr [''https://example.com/a.css'', ''https://example.com/b.css'']) \<and>
   length (filter usable_href (find_all ''link'' ''stylesheet''
     ([stylesheet_link ''https://example.com/a.css''] @
        \<lparr>tag_name = ''link'', attr_rel = Some [''stylesheet''], attr_href = None\<rparr> #
        [stylesheet_link ''https://example.com/b.css'']))) = 2"
proof -
  let ?link = "\<lparr>tag_name = ''link'', attr_rel = Some [''stylesheet''], attr_href = None\<rparr>"
  let ?pre = "[stylesheet_link ''https://example.com/a.css'']"
  let ?post = "[stylesheet_link ''https://example.com/b.css'']"
  have "get_css_links stdout_ok (serve ''<html>'') (parsed_as (?pre @ ?link # ?post)) ''https://example.com/'' [] =
           get_css_links stdout_ok (serve ''<html>'') (parsed_as (?pre @ ?post)) ''https://example.com/'' [] \<and>
         fst (get_css_links stdout_ok (serve ''<html>'') (parsed_as (?pre @ ?link # ?post)) ''https://example.com/'' []) = [] \<and>
         (\<exists>links. snd (get_css_links stdout_ok (serve ''<html>'') (parsed_as (?pre @ ?link # ?post)) ''https://example.com/'' []) = Inr links \<and>
            length links =
              length (filter usable_href (find_all ''link'' ''stylesheet'' (?pre @ ?link # ?post))))"
    by (rule missing_href_skipped [where content = "''<html>''"])
       (simp_all add: serve_def parsed_as_def)
  then have "get_css_links stdout_ok (serve ''<html>'') (parsed_as (?pre @ ?link # ?post)) ''https://example.com/'' [] =
           get_css_links stdout_ok (serve ''<html>'') (parsed_as (?pre @ ?post)) ''https://example.com/'' []"
    by (rule conjunct1)
  also have "\<dots> = ([], Inr [''https://example.com/a.css'', ''https://example.com/b.css''])"
    by (simp add: get_css_links_def css_links_try_def serve_def parsed_as_def
          normalize_href_def startswith_def)
  finally have result: "get_css_links stdout_ok (serve ''<html>'') (parsed_as (?pre @ ?link # ?post))
      ''https://example.com/'' [] = ([], Inr [''https://example.com/a.css'', ''https://example.com/b.css''])" .
  have "length (filter usable_href (find_all ''link'' ''stylesheet'' (?pre @ ?link # ?post))) = 2"
    by (simp add: find_all_stylesheet is_stylesheet_link_def stylesheet_link_def usable_href_def)
  with result show ?thesis
    by (rule conjI)
qed

text \<open>
  C10: a stylesheet link element whose href is the empty string contributes no entry.
  The function returns what it returns for the document without the element, and
  what it returns when the element has no href attribute at all.
\<close>

theorem empty_href_skipped:
  assumes "requests_get url headers = Inr content"
    and "BeautifulSoup content = Inr (pre @ link # post)"
    and "attr_href link = Some []"
  shows "get_css_links stdout_raises requests_get BeautifulSoup url out =
           get_css_links stdout_raises requests_get (parsed_as (pre @ post)) url out \<and>
         get_css_links stdout_raises requests_get BeautifulSoup url out =
           get_css_links stdout_raises requests_get (parsed_as (pre @ link\<lparr>attr_href := None\<rparr> # post)) url out"
proof -
  from assms(3) have skip: "\<not> usable_href link"
    by (simp add: usable_href_def)
  have absent: "\<not> usable_href (link\<lparr>attr_href := None\<rparr>)"
    by (simp add: usable_href_def)
  have "get_css_links stdout_raises requests_get (parsed_as (pre @ post)) url out =
      (out, Inr (css_loop url (find_all ''link'' ''stylesheet'' (pre @ post)) []))"
    using assms(1)
    by (simp add: get_css_links_ok [of requests_get url content _ "pre @ post"] parsed_as_def)
  moreover have "get_css_links stdout_raises requests_get (parsed_as (pre @ link\<lparr>attr_href := None\<rparr> # post)) url out =
      (out, Inr (css_loop url (find_all ''link'' ''stylesheet'' (pre @ post)) []))"
    using assms(1) absent
    by (simp add: get_css_links_skip [of requests_get url content _ pre "link\<lparr>attr_href := None\<rparr>" post]
          parsed_as_def)
  moreover have "get_css_links stdout_raises requests_get BeautifulSoup url out =
      (out, Inr (css_loop url (find_all ''link'' ''stylesheet'' (pre @ post)) []))"
    using assms(1,2) skip
    by (simp add: get_css_links_skip [of requests_get url content BeautifulSoup pre link post])
  ultimately show ?thesis
    by simp
qed

theorem empty_href_skipped_witness:
  "get_css_links stdout_ok (serve ''<html>'')
     (parsed_as ([stylesheet_link ''/a.css''] @ stylesheet_link '''' # [stylesheet_link ''b.css'']))
     ''https://example.com/'' [] =
   ([], Inr [''https://example.com/a.css'', ''https://example.com/b.css''])"
proof -
  have "get_css_links stdout_ok (serve ''<html>'')
     (parsed_as ([stylesheet_link ''/a.css''] @ stylesheet_link '''' # [stylesheet_link ''b.css'']))
     ''https://example.com/'' [] =
    get_css_links stdout_ok (serve ''<html>'')
     (parsed_as ([stylesheet_link ''/a.css''] @ [stylesheet_link ''b.css'']))
     ''https://example.com/'' [] \<and>
    get_css_links stdout_ok (serve ''<html>'')
     (parsed_as ([stylesheet_link ''/a.css''] @ stylesheet_link '''' # [stylesheet_link ''b.css'']))
     ''https://example.com/'' [] =
    get_css_links stdout_ok (serve ''<html>'')
     (parsed_as ([stylesheet_link ''/a.css''] @ (stylesheet_link '''')\<lparr>attr_href := None\<rparr> #
         [stylesheet_link ''b.css'']))
     ''https://example.com/'' []"
    by (rule empty_href_skipped [where content = "''<html>''"])
       (simp_all add: serve_def parsed_as_def)
  then have "get_css_links stdout_ok (serve ''<html>'')
     (parsed_as ([stylesheet_link ''/a.css''] @ stylesheet_link '''' # [stylesheet_link ''b.css'']))
     ''https://example.com/'' [] =
    get_css_links stdout_ok (serve ''<html>'')
     (parsed_as ([stylesheet_link ''/a.css''] @ [stylesheet_link ''b.css'']))
     ''https://example.com/'' []"
    by (rule conjunct1)
  then show ?thesis
    by (simp add: get_css_links_def css_links_try_def serve_def parsed_as_def
          normalize_href_def startswith_def rstrip_def lstrip_def)
qed

subsection \<open>Determinism\<close>

text \<open>
  C9: two runs on the same URL and the same standard output whose fetches return the
  same response body return the same list and leave the same output, whatever else
  differs between the two fetches.
\<close>

theorem same_page_same_links:
  assumes "requests_get1 url headers = Inr content" and "requests_get2 url headers = Inr content"
  shows "get_css_links stdout_raises requests_get1 BeautifulSoup url out =
         get_css_links stdout_raises requests_get2 BeautifulSoup url out"
  using assms by (simp add: get_css_links_def css_links_try_def)

theorem same_page_same_links_witness:
  "get_css_links stdout_ok (serve ''<html>'') (parsed_as [stylesheet_link ''a.css'']) ''https://example.com/'' [] =
   get_css_links stdout_ok (serve_page ''https://example.com/'' ''<html>'') (parsed_as [stylesheet_link ''a.css''])
     ''https://example.com/'' []"
  by (rule same_page_same_links [where content = "''<html>''"])
     (simp_all add: serve_def serve_page_def)

subsection \<open>The entry point\<close>












end
